theory Spec2Isabelle
  imports Complex_Main
begin

section \<open>Python string primitives used by \<^verbatim>\<open>main.py\<close>\<close>

text \<open>
  A Python \<^verbatim>\<open>str\<close> is modelled as a \<^typ>\<open>string\<close>: one \<^typ>\<open>char\<close> per character,
  so that \<^const>\<open>length\<close> is Python's \<^verbatim>\<open>len\<close>. The characters that
  \<^verbatim>\<open>str.strip()\<close> removes are those for which \<^verbatim>\<open>str.isspace\<close> holds; in the
  range of \<^typ>\<open>char\<close> these are the code points 9 to 13, 28 to 32, 133 and 160.
\<close>

definition isspace :: "char \<Rightarrow> bool" where
  "isspace c =
     (let n = (of_char c :: nat)
      in (9 \<le> n \<and> n \<le> 13) \<or> (28 \<le> n \<and> n \<le> 32) \<or> n = 133 \<or> n = 160)"

definition strip :: "string \<Rightarrow> string" where
  "strip s = rev (dropWhile isspace (rev (dropWhile isspace s)))"

text \<open>
  \<^verbatim>\<open>s.split(c)\<close> for a separator of one character: the pieces between the
  occurrences of \<open>c\<close>. The result is never empty: \<^verbatim>\<open>"".split(".") == [""]\<close>.
\<close>

fun split :: "char \<Rightarrow> string \<Rightarrow> string list" where
  "split c [] = [[]]"
| "split c (x # xs) =
     (if x = c then [] # split c xs
      else (case split c xs of
              [] \<Rightarrow> [[x]]
            | piece # pieces \<Rightarrow> (x # piece) # pieces))"

definition endswith :: "string \<Rightarrow> string \<Rightarrow> bool" where
  "endswith s suffix =
     (length suffix \<le> length s \<and> drop (length s - length suffix) s = suffix)"

text \<open>\<^verbatim>\<open>sep.join(xs)\<close>.\<close>

fun join :: "string \<Rightarrow> string list \<Rightarrow> string" where
  "join sep [] = []"
| "join sep [x] = x"
| "join sep (x # y # ys) = x @ sep @ join sep (y # ys)"

text \<open>\<^verbatim>\<open>str(n)\<close> for an integer, as an f-string formats it: decimal digits, a minus sign.\<close>

definition digit :: "nat \<Rightarrow> char" where
  "digit d = ''0123456789'' ! d"

fun str_nat :: "nat \<Rightarrow> string" where
  "str_nat n =
     (if n < 10 then [digit n]
      else str_nat (n div 10) @ [digit (n mod 10)])"

definition str_int :: "int \<Rightarrow> string" where
  "str_int i = (if i < 0 then CHR ''-'' # str_nat (nat (- i)) else str_nat (nat i))"

section \<open>The chunker\<close>

text \<open>
  \<^verbatim>\<open>
  def chunk_text(text: str, max_len: int = 1500) -> list:
      sentences = text.split(".")
      chunks, current = [], ""
      for s in sentences:
          if len(current) + len(s) < max_len:
              current += s + "."
          else:
              chunks.append(current.strip())
              current = s + "."
      if current:
          chunks.append(current.strip())
      return chunks
  \<close>
  The loop is a recursion over the sentences that threads the pair
  \<open>(chunks, current)\<close>.
\<close>

fun chunk_loop :: "int \<Rightarrow> string list \<Rightarrow> string list \<times> string \<Rightarrow> string list \<times> string" where
  "chunk_loop max_len [] (chunks, current) = (chunks, current)"
| "chunk_loop max_len (s # sentences) (chunks, current) =
     (if int (length current) + int (length s) < max_len
      then chunk_loop max_len sentences (chunks, current @ s @ ''.'')
      else chunk_loop max_len sentences (chunks @ [strip current], s @ ''.''))"

definition chunk_text :: "string \<Rightarrow> int \<Rightarrow> string list" where
  "chunk_text text max_len =
     (let sentences = split CHR ''.'' text;
          (chunks, current) = chunk_loop max_len sentences ([], '''')
      in if current \<noteq> [] then chunks @ [strip current] else chunks)"

definition default_max_len :: int where
  "default_max_len = 1500"

text \<open>
  The loop's invariant, for the proofs: a buffer is no longer than the maximum, or it is
  one of the fragments \<open>F\<close>, of at least the maximum's length, with its terminator.
\<close>

definition buffer_ok :: "int \<Rightarrow> string list \<Rightarrow> string \<Rightarrow> bool" where
  "buffer_ok m F b \<longleftrightarrow>
     int (length b) \<le> m \<or> (\<exists>s\<in>set F. m \<le> int (length s) \<and> b = s @ ''.'')"

section \<open>The external collaborators\<close>

text \<open>
  The file codecs, the digest, the PDF reader, the embedding model, the similarity of
  the vector database and the HTTP transport are not code of the repository. Their
  results are parameters of the model, collected in one record. Text and bytes are both
  lists of \<^typ>\<open>char\<close>; \<open>bytes\<close> names the latter.
\<close>

type_synonym bytes = "char list"

type_synonym embedding = "real list"

text \<open>
  Exceptions that leave an endpoint. \<open>HTTPException\<close> is the one that
  \<^verbatim>\<open>main.py\<close> raises itself; the others are raised inside library calls and are not
  caught by the code.
\<close>

datatype error =
    HTTPException int string
  | UnicodeDecodeError
  | PdfOpenError
  | TypeError
  | RequestError string

datatype json =
    JNull
  | JBool bool
  | JNumber real
  | JString string
  | JArray "json list"
  | JObject "(string \<times> json) list"

text \<open>
  \<^verbatim>\<open>requests.post(api_url, headers=headers, json=payload)\<close>: what is sent, and the
  attributes of the response that the code reads. \<open>resp_json\<close> is the value of
  \<^verbatim>\<open>resp.json()\<close>, or \<open>None\<close> where that call raises.
\<close>

record chat_request =
  api_url :: string
  authorization :: string
  model :: string
  messages :: "(string \<times> string) list"
  temperature :: real
  max_tokens :: nat

record http_response =
  status_code :: int
  resp_text :: string
  resp_json :: "json option"

record services =
  utf8_decode :: "bytes \<Rightarrow> string option"
  utf8_encode :: "string \<Rightarrow> bytes"
  md5_hexdigest :: "bytes \<Rightarrow> string"
  pdf_pages :: "bytes \<Rightarrow> string option list option"
  embed :: "string \<Rightarrow> embedding"
  similarity :: "embedding \<Rightarrow> embedding \<Rightarrow> real"
  hf_api_key :: "string option"
  http_post :: "chat_request \<Rightarrow> error + http_response"

section \<open>The vector store\<close>

text \<open>
  A stored record: \<^verbatim>\<open>PointStruct(id=..., vector=..., payload={...})\<close>. The payload is a
  Python dict from strings to strings. The identifier is the value of the UUID.
\<close>

record point =
  point_id :: nat
  vector :: embedding
  payload :: "string \<rightharpoonup> string"

text \<open>
  \<^verbatim>\<open>qdrant.upsert(collection_name, points)\<close> stores each point under its identifier,
  replacing a stored point that has the same identifier.
\<close>

definition upsert_point :: "point \<Rightarrow> point list \<Rightarrow> point list" where
  "upsert_point p store =
     (if list_ex (\<lambda>q. point_id q = point_id p) store
      then map (\<lambda>q. if point_id q = point_id p then p else q) store
      else store @ [p])"

definition upsert :: "point list \<Rightarrow> point list \<Rightarrow> point list" where
  "upsert new store = fold upsert_point new store"

text \<open>
  \<^verbatim>\<open>qdrant.scroll(collection_name, limit=10, offset=None, with_payload=True)\<close> returns one
  page of the collection, at most \<open>limit\<close> records in ascending order of identifier,
  together with the identifier at which the next page starts (\<open>None\<close> when the page
  reached the end). The call in \<^verbatim>\<open>upload_file\<close> passes no \<^verbatim>\<open>limit\<close>, so the
  client's default of 10 applies.
\<close>

definition scroll :: "nat \<Rightarrow> point list \<Rightarrow> point list \<times> nat option" where
  "scroll limit store =
     (let ordered = sort_key point_id store
      in (take limit ordered,
          case drop limit ordered of [] \<Rightarrow> None | p # _ \<Rightarrow> Some (point_id p)))"

definition scroll_default_limit :: nat where
  "scroll_default_limit = 10"

text \<open>
  Modelled from the spec: the nearest-neighbour search of the external vector database,
  which is not part of the repository. Section 4.5: \<^verbatim>\<open>search(query_vector, k)\<close> returns
  the k nearest-neighbour stored records to the query vector by cosine similarity,
  most-similar first; fewer than k if the collection holds fewer than k records; an empty
  result if the collection is empty. The similarity itself is the parameter \<open>sim\<close>.
\<close>

definition search :: "(embedding \<Rightarrow> embedding \<Rightarrow> real) \<Rightarrow> embedding \<Rightarrow> nat \<Rightarrow> point list \<Rightarrow> point list" where
  "search sim query_vector limit store =
     take limit (sort_key (\<lambda>p. - sim query_vector (vector p)) store)"

section \<open>The endpoints' state\<close>

text \<open>
  The stored collection, and the calls made to the external services in the order they
  were made.
\<close>

datatype call =
    Scroll
  | Encode "string list"
  | Upsert "point list"
  | Search embedding nat
  | ChatCompletion chat_request

record state =
  points :: "point list"
  calls :: "call list"

section \<open>Utility functions\<close>

text \<open>
  \<^verbatim>\<open>
  def compute_hash(content: str) -> str:
      return hashlib.md5(content.encode()).hexdigest()
  \<close>
\<close>

definition compute_hash :: "services \<Rightarrow> string \<Rightarrow> string" where
  "compute_hash svc content = md5_hexdigest svc (utf8_encode svc content)"

text \<open>
  \<^verbatim>\<open>
  def extract_text(file: UploadFile) -> str:
      if file.filename.endswith(".txt"):
          return file.file.read().decode("utf-8")
      elif file.filename.endswith(".pdf"):
          text = ""
          with pdfplumber.open(file.file) as pdf:
              for page in pdf.pages:
                  text += page.extract_text() + "\n"
          return text
      else:
          raise HTTPException(status_code=400, detail="Only PDF or TXT supported")
  \<close>
  \<open>pdf_pages\<close> gives, for each page in order, what \<^verbatim>\<open>page.extract_text()\<close> returns
  (\<open>None\<close> for Python's \<^verbatim>\<open>None\<close>, which \<^verbatim>\<open>+ "\n"\<close> rejects with a TypeError).
  Of the uploaded file the model keeps the name, the declared content type, and
  \<open>file_read\<close>, the bytes that \<^verbatim>\<open>file.file.read()\<close> returns.
\<close>

record UploadFile =
  filename :: string
  content_type :: string
  file_read :: bytes

definition newline :: string where
  "newline = [CHR 0x0A]"

fun extract_pages :: "string option list \<Rightarrow> string \<Rightarrow> error + string" where
  "extract_pages [] text = Inr text"
| "extract_pages (page # pages) text =
     (case page of
        None \<Rightarrow> Inl TypeError
      | Some t \<Rightarrow> extract_pages pages (text @ t @ newline))"

definition extract_text :: "services \<Rightarrow> UploadFile \<Rightarrow> error + string" where
  "extract_text svc f =
     (if endswith (filename f) ''.txt'' then
        (case utf8_decode svc (file_read f) of
           None \<Rightarrow> Inl UnicodeDecodeError
         | Some text \<Rightarrow> Inr text)
      else if endswith (filename f) ''.pdf'' then
        (case pdf_pages svc (file_read f) of
           None \<Rightarrow> Inl PdfOpenError
         | Some pages \<Rightarrow> extract_pages pages [])
      else Inl (HTTPException 400 ''Only PDF or TXT supported''))"

section \<open>The chat completion\<close>

definition system_prompt :: string where
  "system_prompt =
     ''You are a helpful assistant answering questions using the provided context.'' @ newline @
     ''If the answer is not contained in the context, say: '' @ [CHR 0x27] @ ''I don'' @ [CHR 0x27] @
     ''t know.'' @ [CHR 0x27] @ newline @
     ''Do not make up information. Be concise and clear.''"

definition chat_payload :: "services \<Rightarrow> string \<Rightarrow> string \<Rightarrow> chat_request" where
  "chat_payload svc question context =
     \<lparr> api_url = ''https://router.huggingface.co/v1/chat/completions'',
       authorization = ''Bearer '' @ (case hf_api_key svc of None \<Rightarrow> ''None'' | Some k \<Rightarrow> k),
       model = ''mistralai/Mistral-7B-Instruct-v0.2:featherless-ai'',
       messages =
         [(''system'', system_prompt),
          (''user'', ''Context:'' @ newline @ context @ newline @ newline @ ''Question: '' @ question)],
       temperature = 7 / 10,
       max_tokens = 512 \<rparr>"

text \<open>
  \<^verbatim>\<open>resp.json()["choices"][0]["message"]["content"].strip()\<close>, step by step; \<open>None\<close>
  where a step raises (KeyError, IndexError, TypeError, AttributeError, or the JSON
  decoding error of \<^verbatim>\<open>resp.json()\<close>).
\<close>

fun getitem_key :: "json \<Rightarrow> string \<Rightarrow> json option" where
  "getitem_key (JObject items) k = map_of items k"
| "getitem_key _ k = None"

fun getitem_0 :: "json \<Rightarrow> json option" where
  "getitem_0 (JArray (x # xs)) = Some x"
| "getitem_0 (JString (c # cs)) = Some (JString [c])"
| "getitem_0 _ = None"

fun str_strip :: "json \<Rightarrow> string option" where
  "str_strip (JString s) = Some (strip s)"
| "str_strip _ = None"

definition chat_content :: "http_response \<Rightarrow> string option" where
  "chat_content resp =
     (case resp_json resp of
        None \<Rightarrow> None
      | Some j \<Rightarrow>
          (case getitem_key j ''choices'' of
             None \<Rightarrow> None
           | Some choices \<Rightarrow>
               (case getitem_0 choices of
                  None \<Rightarrow> None
                | Some choice \<Rightarrow>
                    (case getitem_key choice ''message'' of
                       None \<Rightarrow> None
                     | Some message \<Rightarrow>
                         (case getitem_key message ''content'' of
                            None \<Rightarrow> None
                          | Some content \<Rightarrow> str_strip content)))))"

text \<open>
  \<^verbatim>\<open>
  def query_huggingface_chat(question: str, context: str) -> str:
      ...
      resp = requests.post(api_url, headers=headers, json=payload)
      try:
          return resp.json()["choices"][0]["message"]["content"].strip()
      except Exception as e:
          return f"Error: {resp.status_code} - {resp.text}"
  \<close>
  The request is outside the \<^verbatim>\<open>try\<close>: an exception of the transport leaves the
  function.
\<close>

definition query_huggingface_chat :: "services \<Rightarrow> string \<Rightarrow> string \<Rightarrow> state \<Rightarrow> (error + string) \<times> state" where
  "query_huggingface_chat svc question context st =
     (let payload = chat_payload svc question context;
          st' = st\<lparr>calls := calls st @ [ChatCompletion payload]\<rparr>
      in case http_post svc payload of
           Inl e \<Rightarrow> (Inl e, st')
         | Inr resp \<Rightarrow>
             (case chat_content resp of
                Some content \<Rightarrow> (Inr content, st')
              | None \<Rightarrow>
                  (Inr (''Error: '' @ str_int (status_code resp) @ '' - '' @ resp_text resp), st')))"

section \<open>API endpoints\<close>

text \<open>
  A response body is the Python dict that the endpoint returns, as its list of items.
  \<^verbatim>\<open>
  async def upload_file(file: UploadFile = File(...)):
      text = extract_text(file)
      file_hash = compute_hash(text)
      points, _ = qdrant.scroll(collection_name=COLLECTION_NAME, with_payload=True)
      if any(pt.payload.get("file_hash") == file_hash for pt in points):
          return {"message": "File already processed"}
      chunks = chunk_text(text)
      embeddings = embedder.encode(chunks).tolist()
      qdrant.upsert(
          collection_name=COLLECTION_NAME,
          points=[
              rest.PointStruct(
                  id=str(uuid.uuid4()),
                  vector=embeddings[i],
                  payload={"text": chunks[i], "file_hash": file_hash}
              ) for i in range(len(chunks))
          ]
      )
      return {"message": f"File processed and {len(chunks)} chunks stored."}
  \<close>
  \<open>uuid4 i\<close> is the identifier drawn for chunk \<open>i\<close> of this request.
\<close>

type_synonym response = "(string \<times> string) list"

definition upload_file :: "services \<Rightarrow> (nat \<Rightarrow> nat) \<Rightarrow> UploadFile \<Rightarrow> state \<Rightarrow> (error + response) \<times> state" where
  "upload_file svc uuid4 f st =
     (case extract_text svc f of
        Inl e \<Rightarrow> (Inl e, st)
      | Inr text \<Rightarrow>
          (let file_hash = compute_hash svc text;
               (pts, _) = scroll scroll_default_limit (points st);
               st1 = st\<lparr>calls := calls st @ [Scroll]\<rparr>
           in if list_ex (\<lambda>pt. payload pt ''file_hash'' = Some file_hash) pts
              then (Inr [(''message'', ''File already processed'')], st1)
              else
                (let chunks = chunk_text text default_max_len;
                     embeddings = map (embed svc) chunks;
                     new = map (\<lambda>i. \<lparr> point_id = uuid4 i,
                                        vector = embeddings ! i,
                                        payload = [''text'' \<mapsto> chunks ! i, ''file_hash'' \<mapsto> file_hash] \<rparr>)
                               [0..<length chunks]
                 in (Inr [(''message'',
                           ''File processed and '' @ str_int (int (length chunks)) @ '' chunks stored.'')],
                     st1\<lparr>points := upsert new (points st1),
                         calls := calls st1 @ [Encode chunks, Upsert new]\<rparr>))))"

text \<open>
  \<^verbatim>\<open>
  async def ask(question: str = Form(...)):
      q_emb = embedder.encode(question).tolist()
      search = qdrant.search(collection_name=COLLECTION_NAME, query_vector=q_emb, limit=3)
      if not search:
          return {"answer": "No relevant context found.", "context": ""}
      context = "\n".join([hit.payload.get("text", "") for hit in search])
      answer = query_huggingface_chat(question, context)
      return {"answer": answer, "context": context}
  \<close>
\<close>

definition hit_text :: "point \<Rightarrow> string" where
  "hit_text hit = (case payload hit ''text'' of None \<Rightarrow> [] | Some t \<Rightarrow> t)"

definition ask :: "services \<Rightarrow> string \<Rightarrow> state \<Rightarrow> (error + response) \<times> state" where
  "ask svc question st =
     (let q_emb = embed svc question;
          hits = search (similarity svc) q_emb 3 (points st);
          st1 = st\<lparr>calls := calls st @ [Encode [question], Search q_emb 3]\<rparr>
      in if hits = []
         then (Inr [(''answer'', ''No relevant context found.''), (''context'', [])], st1)
         else
           (let context = join newline (map hit_text hits)
            in case query_huggingface_chat svc question context st1 of
                 (Inl e, st2) \<Rightarrow> (Inl e, st2)
               | (Inr answer, st2) \<Rightarrow> (Inr [(''answer'', answer), (''context'', context)], st2)))"

text \<open>
  A concrete environment, for evaluating the endpoints at concrete inputs: the codecs are
  the identity, the digest of a text is the text itself, a PDF has one page holding its
  bytes, the embedding of a text is its length, the similarity is the dot product, and
  the chat endpoint answers 503 with a body that is not JSON.
\<close>

definition stub_services :: services where
  "stub_services =
     \<lparr> utf8_decode = Some,
       utf8_encode = (\<lambda>s. s),
       md5_hexdigest = (\<lambda>b. b),
       pdf_pages = (\<lambda>b. Some [Some b]),
       embed = (\<lambda>s. [real (length s)]),
       similarity = (\<lambda>q v. sum_list (map2 (*) q v)),
       hf_api_key = None,
       http_post = (\<lambda>r. Inr \<lparr> status_code = 503, resp_text = ''Service Unavailable'', resp_json = None \<rparr>) \<rparr>"

section \<open>Facts about the string primitives\<close>

lemma split_neq_Nil: "split c s \<noteq> []"
  by (induction s) (auto split: list.splits)

lemma split_no_sep: "c \<notin> set s \<Longrightarrow> split c s = [s]"
  by (induction s) auto

text \<open>Joining the pieces with the separator gives the text back.\<close>

lemma concat_split: "concat (map (\<lambda>p. p @ [c]) (split c s)) = s @ [c]"
  by (induction s) (auto split: list.splits)

lemma split_snoc_sep: "split c (s @ [c]) = split c s @ [[]]"
  using split_neq_Nil [of c]
  by (induction s) (auto split: list.splits)

lemma length_strip_le: "length (strip s) \<le> length s"
  unfolding strip_def
  by (metis length_dropWhile_le length_rev order_trans)

lemma isspace_dot: "\<not> isspace CHR ''.''"
  by (simp add: isspace_def)

lemma strip_Nil: "strip [] = []"
  by (simp add: strip_def)

text \<open>A buffer that ends with the terminator has no whitespace to lose at its end.\<close>

lemma strip_snoc_dot: "strip (s @ ''.'') = dropWhile isspace s @ ''.''"
  by (simp add: strip_def isspace_dot dropWhile_append)

lemma takeWhile_snoc_dot: "takeWhile isspace (b @ ''.'') = takeWhile isspace b"
proof (cases "\<forall>x\<in>set b. isspace x")
  case True
  have "takeWhile isspace (b @ ''.'') = b"
    using True by (simp add: takeWhile_append isspace_dot)
  also have "b = takeWhile isspace b"
    using True by (metis takeWhile_eq_all_conv)
  finally show ?thesis .
next
  case False
  then show ?thesis by (auto simp: takeWhile_append)
qed

lemma takeWhile_strip:
  assumes "cur = [] \<or> (\<exists>b. cur = b @ ''.'')"
  shows "takeWhile isspace cur @ strip cur = cur"
proof (cases "cur = []")
  case True
  then show ?thesis by (simp add: strip_Nil)
next
  case False
  then obtain b where b: "cur = b @ ''.''" using assms by blast
  show ?thesis
    by (simp add: b strip_snoc_dot takeWhile_snoc_dot)
qed

section \<open>The chunker's loop\<close>

text \<open>The chunks flushed so far are only ever extended.\<close>

lemma chunk_loop_acc:
  "chunk_loop m ss (cs, cur) =
     (cs @ fst (chunk_loop m ss ([], cur)), snd (chunk_loop m ss ([], cur)))"
proof (induction ss arbitrary: cs cur)
  case Nil
  then show ?case by simp
next
  case (Cons s ss)
  show ?case
    using Cons.IH [of "cs @ [strip cur]" "s @ ''.''"] Cons.IH [of "[strip cur]" "s @ ''.''"]
      Cons.IH [of cs "cur @ s @ ''.''"]
    by simp
qed

text \<open>After at least one sentence the buffer ends with the terminator.\<close>

lemma chunk_loop_current:
  "ss \<noteq> [] \<Longrightarrow> \<exists>b. snd (chunk_loop m ss (cs, cur)) = b @ ''.''"
proof (induction ss arbitrary: cs cur)
  case Nil
  then show ?case by simp
next
  case (Cons s ss)
  show ?case
  proof (cases "ss = []")
    case True
    then show ?thesis by auto
  next
    case False
    then show ?thesis using Cons.IH by simp
  qed
qed

text \<open>
  So the final \<^verbatim>\<open>if current:\<close> always holds: the result is the flushed chunks and
  the trimmed last buffer.
\<close>

lemma chunk_text_eq:
  "chunk_text text m =
     fst (chunk_loop m (split CHR ''.'' text) ([], [])) @
     [strip (snd (chunk_loop m (split CHR ''.'' text) ([], [])))]"
proof -
  obtain b where "snd (chunk_loop m (split CHR ''.'' text) ([], [])) = b @ ''.''"
    using chunk_loop_current [OF split_neq_Nil] by blast
  then show ?thesis
    by (simp add: chunk_text_def Let_def case_prod_unfold)
qed

lemma chunk_text_no_dot:
  assumes "CHR ''.'' \<notin> set text"
  shows "chunk_text text m =
           (if int (length text) < m then [strip (text @ ''.'')]
            else ['''', strip (text @ ''.'')])"
  by (simp add: chunk_text_eq split_no_sep [OF assms] strip_Nil)

lemma chunk_text_neq_Nil: "chunk_text text m \<noteq> []"
  by (simp add: chunk_text_eq)

lemma chunk_loop_buffer_ok:
  assumes "set ss \<subseteq> set F" "buffer_ok m F cur"
    and "\<forall>c\<in>set cs. \<exists>b. buffer_ok m F b \<and> c = strip b"
  shows "(\<forall>c\<in>set (fst (chunk_loop m ss (cs, cur))). \<exists>b. buffer_ok m F b \<and> c = strip b)
         \<and> buffer_ok m F (snd (chunk_loop m ss (cs, cur)))"
  using assms
proof (induction ss arbitrary: cs cur)
  case Nil
  then show ?case by simp
next
  case (Cons s ss)
  show ?case
  proof (cases "int (length cur) + int (length s) < m")
    case True
    have "buffer_ok m F (cur @ s @ ''.'')"
      using True by (simp add: buffer_ok_def)
    then show ?thesis
      using Cons.IH [of "cur @ s @ ''.''" cs] Cons.prems True by simp
  next
    case False
    have fresh: "buffer_ok m F (s @ ''.'')"
    proof (cases "int (length s) < m")
      case True
      then show ?thesis by (simp add: buffer_ok_def)
    next
      case False
      then show ?thesis using Cons.prems(1) by (auto simp: buffer_ok_def)
    qed
    have "\<forall>c\<in>set (cs @ [strip cur]). \<exists>b. buffer_ok m F b \<and> c = strip b"
      using Cons.prems by auto
    then show ?thesis
      using Cons.IH [of "s @ ''.''" "cs @ [strip cur]"] Cons.prems(1) fresh False by simp
  qed
qed

text \<open>
  Putting the trimmed whitespace back in front of every flushed chunk gives the buffers,
  and the buffers in order are the sentences, each followed by its terminator.
\<close>

lemma chunk_loop_unpad:
  assumes "cur = [] \<or> (\<exists>b. cur = b @ ''.'')"
  shows "\<exists>pads. length pads = length (fst (chunk_loop m ss ([], cur)))
           \<and> (\<forall>p\<in>set pads. \<forall>c\<in>set p. isspace c)
           \<and> concat (map2 (@) pads (fst (chunk_loop m ss ([], cur))))
               @ snd (chunk_loop m ss ([], cur))
             = cur @ concat (map (\<lambda>s. s @ ''.'') ss)"
  using assms
proof (induction ss arbitrary: cur)
  case Nil
  then show ?case by simp
next
  case (Cons s ss)
  show ?case
  proof (cases "int (length cur) + int (length s) < m")
    case True
    obtain pads where "length pads = length (fst (chunk_loop m ss ([], cur @ s @ ''.'')))"
      "\<forall>p\<in>set pads. \<forall>c\<in>set p. isspace c"
      "concat (map2 (@) pads (fst (chunk_loop m ss ([], cur @ s @ ''.''))))
               @ snd (chunk_loop m ss ([], cur @ s @ ''.''))
             = (cur @ s @ ''.'') @ concat (map (\<lambda>s. s @ ''.'') ss)"
      using Cons.IH [of "cur @ s @ ''.''"] by auto
    then show ?thesis using True by auto
  next
    case False
    let ?r = "chunk_loop m ss ([], s @ ''.'')"
    obtain pads where pads: "length pads = length (fst ?r)"
      "\<forall>p\<in>set pads. \<forall>c\<in>set p. isspace c"
      "concat (map2 (@) pads (fst ?r)) @ snd ?r = (s @ ''.'') @ concat (map (\<lambda>s. s @ ''.'') ss)"
      using Cons.IH [of "s @ ''.''"] by auto
    have step: "chunk_loop m (s # ss) ([], cur) = (strip cur # fst ?r, snd ?r)"
      using False chunk_loop_acc [of m ss "[strip cur]" "s @ ''.''"] by simp
    let ?pads = "takeWhile isspace cur # pads"
    have "length ?pads = length (fst (chunk_loop m (s # ss) ([], cur)))"
      using pads(1) step by simp
    moreover have "\<forall>p\<in>set ?pads. \<forall>c\<in>set p. isspace c"
      using pads(2) by (auto dest: set_takeWhileD)
    moreover have "concat (map2 (@) ?pads (fst (chunk_loop m (s # ss) ([], cur))))
               @ snd (chunk_loop m (s # ss) ([], cur))
             = cur @ concat (map (\<lambda>s. s @ ''.'') (s # ss))"
      using pads(3) takeWhile_strip [OF Cons.prems] step by simp
    ultimately show ?thesis by blast
  qed
qed

text \<open>
  A fragment of at least the maximum's length never joins a buffer: it is flushed alone,
  with its terminator, and so is a chunk of the result.
\<close>

lemma chunk_loop_keeps: "set cs \<subseteq> set (fst (chunk_loop m ss (cs, cur)))"
  using chunk_loop_acc [of m ss cs cur] by simp

lemma chunk_loop_full_buffer:
  assumes "m \<le> int (length cur)"
  shows "strip cur \<in> set (fst (chunk_loop m ss (cs, cur)))
                       \<union> {strip (snd (chunk_loop m ss (cs, cur)))}"
proof (cases ss)
  case Nil
  then show ?thesis by simp
next
  case (Cons s ss')
  have "\<not> int (length cur) + int (length s) < m"
    using assms by simp
  then have "chunk_loop m ss (cs, cur) = chunk_loop m ss' (cs @ [strip cur], s @ ''.'')"
    using Cons by simp
  then show ?thesis
    using chunk_loop_keeps [of "cs @ [strip cur]" m ss' "s @ ''.''"] by auto
qed

lemma chunk_loop_long_fragment:
  assumes "s \<in> set ss" and "m \<le> int (length s)"
  shows "strip (s @ ''.'') \<in> set (fst (chunk_loop m ss (cs, cur)))
                               \<union> {strip (snd (chunk_loop m ss (cs, cur)))}"
  using assms
proof (induction ss arbitrary: cs cur)
  case Nil
  then show ?case by simp
next
  case (Cons x ss)
  show ?case
  proof (cases "s = x")
    case True
    have "\<not> int (length cur) + int (length x) < m"
      using Cons.prems(2) True by simp
    then have step:
      "chunk_loop m (x # ss) (cs, cur) = chunk_loop m ss (cs @ [strip cur], x @ ''.'')"
      by simp
    have "m \<le> int (length (x @ ''.''))"
      using Cons.prems(2) True by simp
    from chunk_loop_full_buffer [OF this, of ss "cs @ [strip cur]"] show ?thesis
      unfolding step True .
  next
    case False
    then have mem: "s \<in> set ss" using Cons.prems(1) by simp
    show ?thesis
    proof (cases "int (length cur) + int (length x) < m")
      case True
      then show ?thesis
        using Cons.IH [OF mem Cons.prems(2), of cs "cur @ x @ ''.''"] by simp
    next
      case False
      then show ?thesis
        using Cons.IH [OF mem Cons.prems(2), of "cs @ [strip cur]" "x @ ''.''"] by simp
    qed
  qed
qed

section \<open>Properties of the chunker\<close>

text \<open>
  Claim C2, as the code has it. For a maximum that is not negative, a chunk is never
  longer than the maximum, unless it is a single sentence fragment of at least the
  maximum's length, followed by its terminator and trimmed. And every sentence fragment
  of at least the maximum's length does become a chunk in that form, whole: such a
  fragment is not subdivided. A chunk of exactly the maximum's length does occur.
\<close>

theorem chunk_text_length_bound:
  assumes "0 \<le> max_len"
  shows "(\<forall>c\<in>set (chunk_text text max_len).
            int (length c) \<le> max_len \<or>
            (\<exists>s\<in>set (split CHR ''.'' text). max_len \<le> int (length s) \<and> c = strip (s @ ''.'')))
         \<and> (\<forall>s\<in>set (split CHR ''.'' text).
               max_len \<le> int (length s) \<longrightarrow> strip (s @ ''.'') \<in> set (chunk_text text max_len))"
proof -
  let ?F = "split CHR ''.'' text"
  have "buffer_ok max_len ?F []"
    using assms by (simp add: buffer_ok_def)
  then have inv:
    "(\<forall>c\<in>set (fst (chunk_loop max_len ?F ([], []))). \<exists>b. buffer_ok max_len ?F b \<and> c = strip b)
       \<and> buffer_ok max_len ?F (snd (chunk_loop max_len ?F ([], [])))"
    using chunk_loop_buffer_ok [of ?F ?F max_len "[]" "[]"] by simp
  have bound: "int (length c) \<le> max_len \<or>
               (\<exists>s\<in>set ?F. max_len \<le> int (length s) \<and> c = strip (s @ ''.''))"
    if "c \<in> set (chunk_text text max_len)" for c
  proof -
    from that obtain b where b: "buffer_ok max_len ?F b" "c = strip b"
      using inv by (auto simp: chunk_text_eq)
    show ?thesis
    proof (cases "int (length b) \<le> max_len")
      case True
      then show ?thesis using b(2) length_strip_le [of b] by simp
    next
      case False
      then show ?thesis using b by (auto simp: buffer_ok_def)
    qed
  qed
  have whole: "strip (s @ ''.'') \<in> set (chunk_text text max_len)"
    if "s \<in> set ?F" "max_len \<le> int (length s)" for s
    using chunk_loop_long_fragment [OF that, of "[]" "[]"] by (simp add: chunk_text_eq)
  from bound whole show ?thesis by blast
qed

theorem chunk_text_length_bound_witness:
  "(0::int) \<le> 5
   \<and> chunk_text ''abc. d.e.  fghijk .i'' 5 = [''abc.'', ''d.e.'', ''fghijk .'', ''i.'']
   \<and> ''d.e.'' \<in> set (chunk_text ''abc. d.e.  fghijk .i'' 5)
   \<and> (int (length ''d.e.'') \<le> 5 \<or>
      (\<exists>s\<in>set (split CHR ''.'' ''abc. d.e.  fghijk .i'').
          5 \<le> int (length s) \<and> ''d.e.'' = strip (s @ ''.'')))
   \<and> ''  fghijk '' \<in> set (split CHR ''.'' ''abc. d.e.  fghijk .i'')
   \<and> 5 \<le> int (length ''  fghijk '')
   \<and> strip (''  fghijk '' @ ''.'') \<in> set (chunk_text ''abc. d.e.  fghijk .i'' 5)
   \<and> strip (''  fghijk '' @ ''.'') = ''fghijk .''"
proof -
  have chunks: "chunk_text ''abc. d.e.  fghijk .i'' 5 = [''abc.'', ''d.e.'', ''fghijk .'', ''i.'']"
    by (simp add: chunk_text_def strip_def isspace_def)
  have mem: "''d.e.'' \<in> set (chunk_text ''abc. d.e.  fghijk .i'' 5)"
    by (simp add: chunks)
  have frag: "''  fghijk '' \<in> set (split CHR ''.'' ''abc. d.e.  fghijk .i'')"
    by simp
  have long: "5 \<le> int (length ''  fghijk '')"
    by simp
  have trimmed: "strip (''  fghijk '' @ ''.'') = ''fghijk .''"
    by (simp add: strip_def isspace_def)
  have "(0::int) \<le> 5" by simp
  from chunk_text_length_bound [OF this, of "''abc. d.e.  fghijk .i''"] mem frag long
  have "(int (length ''d.e.'') \<le> 5 \<or>
         (\<exists>s\<in>set (split CHR ''.'' ''abc. d.e.  fghijk .i'').
             5 \<le> int (length s) \<and> ''d.e.'' = strip (s @ ''.'')))
        \<and> strip (''  fghijk '' @ ''.'') \<in> set (chunk_text ''abc. d.e.  fghijk .i'' 5)"
    by blast
  with chunks mem frag long trimmed show ?thesis by simp
qed

text \<open>
  Claim C2, as stated, fails: a text of 1499 characters without a terminator is shorter
  than the default maximum of 1500, and its one chunk has length 1500.
\<close>

theorem chunk_text_reaches_max_len:
  "chunk_text (replicate 1499 CHR ''a'') default_max_len = [replicate 1499 CHR ''a'' @ ''.'']
   \<and> int (length (replicate 1499 CHR ''a'' @ ''.'')) = default_max_len
   \<and> split CHR ''.'' (replicate 1499 CHR ''a'') = [replicate 1499 CHR ''a'']
   \<and> int (length (replicate 1499 CHR ''a'')) < default_max_len"
proof -
  have nodot: "CHR ''.'' \<notin> set (replicate 1499 CHR ''a'')"
    by simp
  have "\<not> isspace CHR ''a''"
    by (simp add: isspace_def)
  then have "strip (replicate 1499 CHR ''a'' @ ''.'') = replicate 1499 CHR ''a'' @ ''.''"
    by (simp add: strip_snoc_dot dropWhile_replicate)
  then show ?thesis
    by (simp add: chunk_text_no_dot [OF nodot] split_no_sep [OF nodot] default_max_len_def)
qed

text \<open>
  Claim C5 at a failing input. A text of 1500 characters without a terminator: the first
  and only fragment does not fit the empty buffer, the loop flushes the empty buffer
  without the test that guards the final flush, and the first chunk is the empty string.
\<close>

theorem chunk_text_empty_chunk:
  "chunk_text (replicate 1500 CHR ''a'') default_max_len
     = ['''', replicate 1500 CHR ''a'' @ ''.'']"
proof -
  have nodot: "CHR ''.'' \<notin> set (replicate 1500 CHR ''a'')"
    by simp
  have "\<not> isspace CHR ''a''"
    by (simp add: isspace_def)
  then have "strip (replicate 1500 CHR ''a'' @ ''.'') = replicate 1500 CHR ''a'' @ ''.''"
    by (simp add: strip_snoc_dot dropWhile_replicate)
  then show ?thesis
    by (simp add: chunk_text_no_dot [OF nodot] default_max_len_def)
qed

text \<open>
  A text without a terminator that is shorter than the maximum gives exactly one chunk:
  the text followed by the terminator, trimmed. For a text of whitespace only, the empty
  text included, that chunk is the terminator alone.
\<close>

lemma chunk_text_no_terminator:
  assumes "CHR ''.'' \<notin> set text" and "int (length text) < max_len"
  shows "chunk_text text max_len = [strip (text @ ''.'')]
         \<and> ((\<forall>c\<in>set text. isspace c) \<longrightarrow> chunk_text text max_len = [''.''])"
proof -
  have one: "chunk_text text max_len = [strip (text @ ''.'')]"
    using assms(2) by (simp add: chunk_text_no_dot [OF assms(1)])
  have "strip (text @ ''.'') = ''.''" if "\<forall>c\<in>set text. isspace c"
    using that by (simp add: strip_snoc_dot)
  with one show ?thesis by simp
qed

text \<open>
  Claim C6 at failing inputs. The empty text and a text of two spaces each give one
  chunk, the terminator alone, where the claim says no chunk: the empty text splits into
  one empty fragment, the loop appends the terminator to it, and the test
  \<^verbatim>\<open>if current:\<close> before the final flush therefore never fails.
\<close>

theorem chunk_text_empty_text:
  "chunk_text [] default_max_len = [''.'']
   \<and> chunk_text ''  '' default_max_len = [''.'']"
  by (simp add: chunk_text_def default_max_len_def strip_def isspace_def)

text \<open>
  Claim C7. Every chunk, with the whitespace that trimming removed put back in front of
  it, is a run of sentence fragments each followed by its terminator: the padded chunks
  concatenate to the fragments of the input in order, each with its terminator, and
  splitting that text on the terminator (the piece after the last inserted terminator
  dropped) gives the fragments of the input again.
\<close>

theorem chunk_text_roundtrip:
  "\<exists>pads. length pads = length (chunk_text text max_len)
     \<and> (\<forall>p\<in>set pads. \<forall>c\<in>set p. isspace c)
     \<and> concat (map2 (@) pads (chunk_text text max_len))
         = concat (map (\<lambda>s. s @ ''.'') (split CHR ''.'' text))
     \<and> butlast (split CHR ''.'' (concat (map2 (@) pads (chunk_text text max_len))))
         = split CHR ''.'' text"
proof -
  let ?ss = "split CHR ''.'' text"
  let ?r = "chunk_loop max_len ?ss ([], [])"
  obtain pads where pads: "length pads = length (fst ?r)"
      "\<forall>p\<in>set pads. \<forall>c\<in>set p. isspace c"
      "concat (map2 (@) pads (fst ?r)) @ snd ?r = concat (map (\<lambda>s. s @ ''.'') ?ss)"
    using chunk_loop_unpad [of "[]" max_len ?ss] by auto
  obtain b where b: "snd ?r = b @ ''.''"
    using chunk_loop_current [OF split_neq_Nil] by blast
  let ?pads = "pads @ [takeWhile isspace (snd ?r)]"
  have 1: "length ?pads = length (chunk_text text max_len)"
    using pads(1) by (simp add: chunk_text_eq)
  have 2: "\<forall>p\<in>set ?pads. \<forall>c\<in>set p. isspace c"
    using pads(2) by (auto dest: set_takeWhileD)
  have "takeWhile isspace (snd ?r) @ strip (snd ?r) = snd ?r"
    using takeWhile_strip [of "snd ?r"] b by blast
  then have 3: "concat (map2 (@) ?pads (chunk_text text max_len))
         = concat (map (\<lambda>s. s @ ''.'') ?ss)"
    using pads(1,3) by (simp add: chunk_text_eq)
  have 4: "butlast (split CHR ''.'' (concat (map2 (@) ?pads (chunk_text text max_len)))) = ?ss"
    unfolding 3 by (simp add: concat_split split_snoc_sep)
  from 1 2 3 4 show ?thesis by blast
qed

theorem chunk_text_roundtrip_witness:
  "\<exists>pads. length pads = length (chunk_text ''ab. cd. e'' 5)
     \<and> (\<forall>p\<in>set pads. \<forall>c\<in>set p. isspace c)
     \<and> concat (map2 (@) pads (chunk_text ''ab. cd. e'' 5)) = ''ab. cd. e.''
     \<and> butlast (split CHR ''.'' (concat (map2 (@) pads (chunk_text ''ab. cd. e'' 5))))
         = [''ab'', '' cd'', '' e'']"
  using chunk_text_roundtrip [of "''ab. cd. e''" 5] by simp

section \<open>The text extractor\<close>

lemma endswith_same_length:
  assumes "endswith s a" and "endswith s b" and "length a = length b"
  shows "a = b"
  using assms by (simp add: endswith_def)

text \<open>
  Claim C10. The extractor looks at the file name only, and case-sensitively: a name that
  ends with \<^verbatim>\<open>.txt\<close> gives the UTF-8 decoding of the bytes, a name that ends with
  \<^verbatim>\<open>.pdf\<close> gives the PDF extraction, and every other name is rejected with the 400
  error. In particular a name that ends with any four characters other than exactly
  \<^verbatim>\<open>.txt\<close> and \<^verbatim>\<open>.pdf\<close> is rejected, which covers every variant in another case
  (\<^verbatim>\<open>.TXT\<close>, \<^verbatim>\<open>.Txt\<close>, \<^verbatim>\<open>.PDF\<close>, \<^verbatim>\<open>.Pdf\<close>, ...). The declared content type never
  changes the result.
\<close>

theorem extract_text_dispatch:
  "(endswith (filename f) ''.txt'' \<longrightarrow>
      extract_text svc f =
        (case utf8_decode svc (file_read f) of
           None \<Rightarrow> Inl UnicodeDecodeError
         | Some text \<Rightarrow> Inr text))
   \<and> (endswith (filename f) ''.pdf'' \<longrightarrow>
      extract_text svc f =
        (case pdf_pages svc (file_read f) of
           None \<Rightarrow> Inl PdfOpenError
         | Some pages \<Rightarrow> extract_pages pages []))
   \<and> (\<not> endswith (filename f) ''.txt'' \<and> \<not> endswith (filename f) ''.pdf'' \<longrightarrow>
      extract_text svc f = Inl (HTTPException 400 ''Only PDF or TXT supported''))
   \<and> (endswith (filename f) suffix \<and> length suffix = 4
        \<and> suffix \<noteq> ''.txt'' \<and> suffix \<noteq> ''.pdf'' \<longrightarrow>
      extract_text svc f = Inl (HTTPException 400 ''Only PDF or TXT supported''))
   \<and> (endswith (filename f) ''.TXT'' \<longrightarrow>
      extract_text svc f = Inl (HTTPException 400 ''Only PDF or TXT supported''))
   \<and> extract_text svc (f\<lparr>content_type := ct\<rparr>) = extract_text svc f"
proof -
  have pdf: "\<not> endswith (filename f) ''.txt''" if "endswith (filename f) ''.pdf''"
    using endswith_same_length [OF that, of "''.txt''"] by auto
  have other: "\<not> endswith (filename f) ''.txt'' \<and> \<not> endswith (filename f) ''.pdf''"
    if "endswith (filename f) sfx" "length sfx = 4" "sfx \<noteq> ''.txt''" "sfx \<noteq> ''.pdf''" for sfx
    using endswith_same_length [OF that(1), of "''.txt''"]
      endswith_same_length [OF that(1), of "''.pdf''"] that(2,3,4) by auto
  have upper: "\<not> endswith (filename f) ''.txt'' \<and> \<not> endswith (filename f) ''.pdf''"
    if "endswith (filename f) ''.TXT''"
    using other [OF that] by simp
  show ?thesis
    using pdf other [of suffix] upper by (auto simp: extract_text_def)
qed

theorem extract_text_dispatch_witness:
  "endswith ''notes.txt'' ''.txt''
   \<and> extract_text stub_services
        \<lparr>filename = ''notes.txt'', content_type = ''application/pdf'', file_read = ''hi''\<rparr> = Inr ''hi''
   \<and> endswith ''scan.pdf'' ''.pdf''
   \<and> extract_text stub_services
        \<lparr>filename = ''scan.pdf'', content_type = ''text/plain'', file_read = ''hi''\<rparr>
       = Inr (''hi'' @ newline)
   \<and> endswith ''NOTES.TXT'' ''.TXT''
   \<and> extract_text stub_services
        \<lparr>filename = ''NOTES.TXT'', content_type = ''text/plain'', file_read = ''hi''\<rparr>
       = Inl (HTTPException 400 ''Only PDF or TXT supported'')
   \<and> endswith ''SCAN.PDF'' ''.PDF''
   \<and> extract_text stub_services
        \<lparr>filename = ''SCAN.PDF'', content_type = ''application/pdf'', file_read = ''hi''\<rparr>
       = Inl (HTTPException 400 ''Only PDF or TXT supported'')
   \<and> endswith ''Notes.Txt'' ''.Txt''
   \<and> extract_text stub_services
        \<lparr>filename = ''Notes.Txt'', content_type = ''text/plain'', file_read = ''hi''\<rparr>
       = Inl (HTTPException 400 ''Only PDF or TXT supported'')
   \<and> endswith ''Scan.Pdf'' ''.Pdf''
   \<and> extract_text stub_services
        \<lparr>filename = ''Scan.Pdf'', content_type = ''application/pdf'', file_read = ''hi''\<rparr>
       = Inl (HTTPException 400 ''Only PDF or TXT supported'')"
proof -
  have e: "endswith ''notes.txt'' ''.txt''" "endswith ''scan.pdf'' ''.pdf''"
    "endswith ''NOTES.TXT'' ''.TXT''" "endswith ''SCAN.PDF'' ''.PDF''"
    "endswith ''Notes.Txt'' ''.Txt''" "endswith ''Scan.Pdf'' ''.Pdf''"
    by (simp_all add: endswith_def)
  have 1: "extract_text stub_services
        \<lparr>filename = ''notes.txt'', content_type = ''application/pdf'', file_read = ''hi''\<rparr> = Inr ''hi''"
    using e(1) extract_text_dispatch [of "\<lparr>filename = ''notes.txt'', content_type = ''application/pdf'', file_read = ''hi''\<rparr>" stub_services]
    by (simp add: stub_services_def)
  have 2: "extract_text stub_services
        \<lparr>filename = ''scan.pdf'', content_type = ''text/plain'', file_read = ''hi''\<rparr>
       = Inr (''hi'' @ newline)"
    using e(2) extract_text_dispatch [of "\<lparr>filename = ''scan.pdf'', content_type = ''text/plain'', file_read = ''hi''\<rparr>" stub_services]
    by (simp add: stub_services_def)
  have 3: "extract_text stub_services
        \<lparr>filename = ''NOTES.TXT'', content_type = ''text/plain'', file_read = ''hi''\<rparr>
       = Inl (HTTPException 400 ''Only PDF or TXT supported'')"
    using e(3) extract_text_dispatch [of "\<lparr>filename = ''NOTES.TXT'', content_type = ''text/plain'', file_read = ''hi''\<rparr>" stub_services "''.TXT''"]
    by simp
  have 4: "extract_text stub_services
        \<lparr>filename = ''SCAN.PDF'', content_type = ''application/pdf'', file_read = ''hi''\<rparr>
       = Inl (HTTPException 400 ''Only PDF or TXT supported'')"
    using e(4) extract_text_dispatch [of "\<lparr>filename = ''SCAN.PDF'', content_type = ''application/pdf'', file_read = ''hi''\<rparr>" stub_services "''.PDF''"]
    by simp
  have 5: "extract_text stub_services
        \<lparr>filename = ''Notes.Txt'', content_type = ''text/plain'', file_read = ''hi''\<rparr>
       = Inl (HTTPException 400 ''Only PDF or TXT supported'')"
    using e(5) extract_text_dispatch [of "\<lparr>filename = ''Notes.Txt'', content_type = ''text/plain'', file_read = ''hi''\<rparr>" stub_services "''.Txt''"]
    by simp
  have 6: "extract_text stub_services
        \<lparr>filename = ''Scan.Pdf'', content_type = ''application/pdf'', file_read = ''hi''\<rparr>
       = Inl (HTTPException 400 ''Only PDF or TXT supported'')"
    using e(6) extract_text_dispatch [of "\<lparr>filename = ''Scan.Pdf'', content_type = ''application/pdf'', file_read = ''hi''\<rparr>" stub_services "''.Pdf''"]
    by simp
  from e 1 2 3 4 5 6 show ?thesis by simp
qed

section \<open>The upload endpoint\<close>

text \<open>
  Claim C8. A file whose name ends neither with \<^verbatim>\<open>.txt\<close> nor with \<^verbatim>\<open>.pdf\<close> is
  rejected with the 400 error whose detail names PDF and TXT only, and the state is the
  one before the call: nothing is stored and no external service is called.
\<close>

theorem upload_file_unsupported:
  assumes "\<not> endswith (filename f) ''.txt''" and "\<not> endswith (filename f) ''.pdf''"
  shows "upload_file svc uuid4 f st = (Inl (HTTPException 400 ''Only PDF or TXT supported''), st)"
  using assms by (simp add: upload_file_def extract_text_def)

theorem upload_file_unsupported_witness:
  "\<not> endswith ''data.csv'' ''.txt'' \<and> \<not> endswith ''data.csv'' ''.pdf''
   \<and> upload_file stub_services (\<lambda>i. i)
        \<lparr>filename = ''data.csv'', content_type = ''text/csv'', file_read = ''a,b''\<rparr>
        \<lparr>points = [], calls = []\<rparr>
       = (Inl (HTTPException 400 ''Only PDF or TXT supported''), \<lparr>points = [], calls = []\<rparr>)"
proof -
  have 1: "\<not> endswith (filename \<lparr>filename = ''data.csv'', content_type = ''text/csv'', file_read = ''a,b''\<rparr>) ''.txt''"
    by (simp add: endswith_def)
  have 2: "\<not> endswith (filename \<lparr>filename = ''data.csv'', content_type = ''text/csv'', file_read = ''a,b''\<rparr>) ''.pdf''"
    by (simp add: endswith_def)
  from upload_file_unsupported [OF 1 2, of stub_services "\<lambda>i. i" "\<lparr>points = [], calls = []\<rparr>"] 1 2
  show ?thesis by simp
qed

text \<open>
  The duplicate check itself: when a record of the page that \<^verbatim>\<open>scroll\<close> returns
  carries the hash of the text, the upload stops with the notice, and the only call made
  is the scroll.
\<close>

lemma upload_file_duplicate_in_page:
  assumes "extract_text svc f = Inr text"
    and "list_ex (\<lambda>pt. payload pt ''file_hash'' = Some (compute_hash svc text))
           (fst (scroll scroll_default_limit (points st)))"
  shows "upload_file svc uuid4 f st =
           (Inr [(''message'', ''File already processed'')], st\<lparr>calls := calls st @ [Scroll]\<rparr>)"
  using assms by (simp add: upload_file_def Let_def case_prod_unfold)

lemma upsert_point_mem: "p \<in> set (upsert_point p store)"
  by (auto simp: upsert_point_def list_ex_iff)

lemma upsert_point_keeps:
  assumes "\<exists>q\<in>set store. P q" and "P p"
  shows "\<exists>q\<in>set (upsert_point p store). P q"
  using assms by (auto simp: upsert_point_def list_ex_iff)

lemma upsert_keeps:
  assumes "(\<exists>q\<in>set store. P q) \<or> new \<noteq> []" and "\<forall>p\<in>set new. P p"
  shows "\<exists>q\<in>set (upsert new store). P q"
  using assms unfolding upsert_def
proof (induction new arbitrary: store)
  case Nil
  then show ?case by simp
next
  case (Cons p ps)
  have "\<exists>q\<in>set (upsert_point p store). P q"
    using upsert_point_mem [of p store] Cons.prems(2) by auto
  then show ?case
    using Cons.IH [of "upsert_point p store"] Cons.prems(2) by simp
qed

lemma scroll_whole:
  assumes "length store \<le> limit"
  shows "set (fst (scroll limit store)) = set store"
  using assms by (simp add: scroll_def Let_def)

text \<open>
  What the duplicate check does guarantee: a second upload of the same text is rejected
  when the collection, after the first upload, still fits the one page that
  \<^verbatim>\<open>scroll\<close> returns.
\<close>

lemma upload_file_twice_one_page:
  assumes "extract_text svc d1 = Inr text" and "extract_text svc d2 = Inr text"
    and "upload_file svc uuid4 d1 st = (r1, st1)"
    and "length (points st1) \<le> scroll_default_limit"
  shows "upload_file svc uuid4' d2 st1 =
           (Inr [(''message'', ''File already processed'')], st1\<lparr>calls := calls st1 @ [Scroll]\<rparr>)"
proof -
  let ?h = "compute_hash svc text"
  let ?P = "\<lambda>pt. payload pt ''file_hash'' = Some ?h"
  have stored: "\<exists>q\<in>set (points st1). ?P q"
  proof (cases "list_ex ?P (fst (scroll scroll_default_limit (points st)))")
    case True
    then have "points st1 = points st"
      using assms(1,3) by (auto simp: upload_file_def Let_def case_prod_unfold)
    moreover have "set (fst (scroll scroll_default_limit (points st))) \<subseteq> set (points st)"
      using set_take_subset [of scroll_default_limit "sort_key point_id (points st)"]
      by (simp add: scroll_def Let_def)
    ultimately show ?thesis using True by (auto simp: list_ex_iff)
  next
    case False
    let ?chunks = "chunk_text text default_max_len"
    let ?new = "map (\<lambda>i. \<lparr> point_id = uuid4 i, vector = map (embed svc) ?chunks ! i,
                      payload = [''text'' \<mapsto> ?chunks ! i, ''file_hash'' \<mapsto> ?h] \<rparr>)
                  [0..<length ?chunks]"
    have pts: "points st1 = upsert ?new (points st)"
      using False assms(1,3) by (auto simp: upload_file_def Let_def case_prod_unfold)
    have "?new \<noteq> []"
      using chunk_text_neq_Nil [of "text" default_max_len] by simp
    moreover have "\<forall>p\<in>set ?new. ?P p" by auto
    ultimately show ?thesis
      unfolding pts using upsert_keeps [of "points st" ?P ?new] by blast
  qed
  then have "list_ex ?P (fst (scroll scroll_default_limit (points st1)))"
    using scroll_whole [OF assms(4)] by (simp add: list_ex_iff)
  then show ?thesis
    using assms(2) by (rule upload_file_duplicate_in_page [rotated])
qed

lemma chunk_text_hello: "chunk_text ''hello'' default_max_len = [''hello.'']"
  by (simp add: chunk_text_no_dot default_max_len_def strip_def isspace_def)

text \<open>
  Claim C1 at a failing input. The collection holds ten chunks of an earlier document,
  with identifiers 0 to 9. The text \<^verbatim>\<open>hello\<close> is uploaded as \<^verbatim>\<open>a.txt\<close> and its one
  chunk is stored under identifier 10. The same text is then uploaded as \<^verbatim>\<open>b.txt\<close>:
  the scroll returns the ten records of its first page, none of which carries the hash,
  and the chunk is embedded and stored a second time.
\<close>

theorem upload_file_duplicate_stored_again:
  "fst (upload_file stub_services (\<lambda>i. 10 + i)
          \<lparr>filename = ''a.txt'', content_type = ''text/plain'', file_read = ''hello''\<rparr>
          \<lparr>points = map (\<lambda>i. \<lparr>point_id = i, vector = [1],
                                 payload = [''text'' \<mapsto> ''x.'', ''file_hash'' \<mapsto> ''x'']\<rparr>) [0..<10],
           calls = []\<rparr>)
     = Inr [(''message'', ''File processed and 1 chunks stored.'')]
   \<and> upload_file stub_services (\<lambda>i. 11 + i)
        \<lparr>filename = ''b.txt'', content_type = ''text/plain'', file_read = ''hello''\<rparr>
        (snd (upload_file stub_services (\<lambda>i. 10 + i)
               \<lparr>filename = ''a.txt'', content_type = ''text/plain'', file_read = ''hello''\<rparr>
               \<lparr>points = map (\<lambda>i. \<lparr>point_id = i, vector = [1],
                                      payload = [''text'' \<mapsto> ''x.'', ''file_hash'' \<mapsto> ''x'']\<rparr>) [0..<10],
                calls = []\<rparr>))
     = (Inr [(''message'', ''File processed and 1 chunks stored.'')],
        \<lparr>points =
           map (\<lambda>i. \<lparr>point_id = i, vector = [1],
                      payload = [''text'' \<mapsto> ''x.'', ''file_hash'' \<mapsto> ''x'']\<rparr>) [0..<10]
           @ [\<lparr>point_id = 10, vector = [6],
                payload = [''text'' \<mapsto> ''hello.'', ''file_hash'' \<mapsto> ''hello'']\<rparr>,
              \<lparr>point_id = 11, vector = [6],
                payload = [''text'' \<mapsto> ''hello.'', ''file_hash'' \<mapsto> ''hello'']\<rparr>],
         calls =
           [Scroll, Encode [''hello.''],
            Upsert [\<lparr>point_id = 10, vector = [6],
                      payload = [''text'' \<mapsto> ''hello.'', ''file_hash'' \<mapsto> ''hello'']\<rparr>],
            Scroll, Encode [''hello.''],
            Upsert [\<lparr>point_id = 11, vector = [6],
                      payload = [''text'' \<mapsto> ''hello.'', ''file_hash'' \<mapsto> ''hello'']\<rparr>]]\<rparr>)"
  by (simp add: upload_file_def extract_text_def endswith_def compute_hash_def stub_services_def
      scroll_def scroll_default_limit_def chunk_text_hello upsert_def upsert_point_def
      str_int_def digit_def upt_conv_Cons Let_def)

section \<open>The ask endpoint\<close>

lemma search_Nil: "search sim q k [] = []"
  by (simp add: search_def)

lemma search_sorted:
  "sorted_wrt (\<lambda>a b. sim q (vector b) \<le> sim q (vector a)) (search sim q k store)"
proof -
  have "sorted (map (\<lambda>p. - sim q (vector p)) (sort_key (\<lambda>p. - sim q (vector p)) store))"
    by (rule sorted_sort_key)
  then have "sorted_wrt (\<lambda>a b. sim q (vector b) \<le> sim q (vector a)) (sort_key (\<lambda>p. - sim q (vector p)) store)"
    by (simp add: sorted_map)
  then show ?thesis
    unfolding search_def by (rule sorted_wrt_take)
qed

lemma search_subset: "set (search sim q k store) \<subseteq> set store"
  unfolding search_def using set_take_subset [of k "sort_key (\<lambda>p. - sim q (vector p)) store"] by simp

lemma length_search: "length (search sim q k store) = min k (length store)"
  by (simp add: search_def min.commute)

lemma chat_content_well_formed:
  "chat_content \<lparr>status_code = 200, resp_text = t,
       resp_json = Some (JObject [(''choices'',
         JArray [JObject [(''message'', JObject [(''role'', JString ''assistant''),
                                                 (''content'', JString a)])]])])\<rparr>
     = Some (strip a)"
  by (simp add: chat_content_def)

lemma chat_content_error_body:
  "chat_content \<lparr>status_code = 503, resp_text = t,
       resp_json = Some (JObject [(''error'', JString ''Model is loading'')])\<rparr> = None"
  by (simp add: chat_content_def)

text \<open>
  Claim C3. When the search returns no record, as it does on an empty collection, the
  response is exactly the fixed answer with an empty context, and the calls made are the
  embedding of the question and the search: the chat completion is not called.
\<close>

theorem ask_empty_collection:
  assumes "search (similarity svc) (embed svc question) 3 (points st) = []"
  shows "ask svc question st =
           (Inr [(''answer'', ''No relevant context found.''), (''context'', '''')],
            st\<lparr>calls := calls st @ [Encode [question], Search (embed svc question) 3]\<rparr>)"
  using assms by (simp add: ask_def Let_def)

theorem ask_empty_collection_witness:
  "search (similarity stub_services) (embed stub_services ''why?'') 3 [] = []
   \<and> ask stub_services ''why?'' \<lparr>points = [], calls = []\<rparr> =
       (Inr [(''answer'', ''No relevant context found.''), (''context'', [])],
        \<lparr>points = [], calls = [Encode [''why?''], Search (embed stub_services ''why?'') 3]\<rparr>)"
proof -
  have 1: "search (similarity stub_services) (embed stub_services ''why?'') 3
             (points \<lparr>points = [], calls = []\<rparr>) = []"
    by (simp add: search_def)
  from ask_empty_collection [OF 1] 1 show ?thesis by simp
qed

text \<open>
  Claim C4. On a collection that is not empty the search returns at most three stored
  records, most similar to the question's embedding first, and the context of the
  response is their texts joined with newlines in that order. (When the transport of the
  chat completion raises there is no response.)
\<close>

theorem ask_context_top3:
  assumes "hits = search (similarity svc) (embed svc question) 3 (points st)"
    and "ctx = join newline (map hit_text hits)"
    and "points st \<noteq> []"
  shows "length hits \<le> 3 \<and> hits \<noteq> [] \<and> set hits \<subseteq> set (points st)
         \<and> sorted_wrt (\<lambda>a b. similarity svc (embed svc question) (vector b)
                              \<le> similarity svc (embed svc question) (vector a)) hits
         \<and> (case fst (ask svc question st) of
              Inr r \<Rightarrow> \<exists>answer. r = [(''answer'', answer), (''context'', ctx)]
            | Inl e \<Rightarrow> http_post svc (chat_payload svc question ctx) = Inl e)"
proof -
  have len: "length hits = min 3 (length (points st))"
    by (simp add: assms(1) length_search)
  then have ne: "hits \<noteq> []" using assms(3) by (cases "points st") auto
  have "case fst (ask svc question st) of
              Inr r \<Rightarrow> \<exists>answer. r = [(''answer'', answer), (''context'', ctx)]
            | Inl e \<Rightarrow> http_post svc (chat_payload svc question ctx) = Inl e"
    using ne assms(1,2)
    by (auto simp: ask_def Let_def query_huggingface_chat_def split: sum.splits option.splits)
  then show ?thesis
    using len ne search_sorted search_subset assms(1) by auto
qed

theorem ask_context_top3_witness:
  "search (\<lambda>q v. sum_list (map2 (*) q v)) [4] 3
       [\<lparr>point_id = 1, vector = [1 / 2], payload = [''text'' \<mapsto> ''A.'']\<rparr>,
        \<lparr>point_id = 2, vector = [9 / 10], payload = [''text'' \<mapsto> ''B.'']\<rparr>,
        \<lparr>point_id = 3, vector = [1 / 10], payload = [''text'' \<mapsto> ''C.'']\<rparr>,
        \<lparr>point_id = 4, vector = [7 / 10], payload = [''text'' \<mapsto> ''D.'']\<rparr>]
     = [\<lparr>point_id = 2, vector = [9 / 10], payload = [''text'' \<mapsto> ''B.'']\<rparr>,
        \<lparr>point_id = 4, vector = [7 / 10], payload = [''text'' \<mapsto> ''D.'']\<rparr>,
        \<lparr>point_id = 1, vector = [1 / 2], payload = [''text'' \<mapsto> ''A.'']\<rparr>]
   \<and> fst (ask (stub_services\<lparr>http_post := \<lambda>r. Inr \<lparr>status_code = 200, resp_text = ''ok'',
               resp_json = Some (JObject [(''choices'',
                 JArray [JObject [(''message'', JObject [(''content'', JString '' Paris. '')])]])])\<rparr>\<rparr>)
            ''why?''
            \<lparr>points =
               [\<lparr>point_id = 1, vector = [1 / 2], payload = [''text'' \<mapsto> ''A.'']\<rparr>,
                \<lparr>point_id = 2, vector = [9 / 10], payload = [''text'' \<mapsto> ''B.'']\<rparr>,
                \<lparr>point_id = 3, vector = [1 / 10], payload = [''text'' \<mapsto> ''C.'']\<rparr>,
                \<lparr>point_id = 4, vector = [7 / 10], payload = [''text'' \<mapsto> ''D.'']\<rparr>],
             calls = []\<rparr>)
       = Inr [(''answer'', ''Paris.''), (''context'', ''B.'' @ newline @ ''D.'' @ newline @ ''A.'')]"
proof -
  let ?svc = "stub_services\<lparr>http_post := \<lambda>r. Inr \<lparr>status_code = 200, resp_text = ''ok'',
               resp_json = Some (JObject [(''choices'',
                 JArray [JObject [(''message'', JObject [(''content'', JString '' Paris. '')])]])])\<rparr>\<rparr>"
  let ?p1 = "\<lparr>point_id = 1, vector = [1 / 2], payload = [''text'' \<mapsto> ''A.'']\<rparr>"
  let ?p2 = "\<lparr>point_id = 2, vector = [9 / 10], payload = [''text'' \<mapsto> ''B.'']\<rparr>"
  let ?p3 = "\<lparr>point_id = 3, vector = [1 / 10], payload = [''text'' \<mapsto> ''C.'']\<rparr>"
  let ?p4 = "\<lparr>point_id = 4, vector = [7 / 10], payload = [''text'' \<mapsto> ''D.'']\<rparr>"
  let ?st = "\<lparr>points = [?p1, ?p2, ?p3, ?p4], calls = []\<rparr>"
  have s: "search (\<lambda>q v. sum_list (map2 (*) q v)) [4] 3 [?p1, ?p2, ?p3, ?p4] = [?p2, ?p4, ?p1]"
    by (simp add: search_def)
  have hits: "[?p2, ?p4, ?p1] = search (similarity ?svc) (embed ?svc ''why?'') 3 (points ?st)"
    using s by (simp add: stub_services_def)
  have ctx: "''B.'' @ newline @ ''D.'' @ newline @ ''A.'' = join newline (map hit_text [?p2, ?p4, ?p1])"
    by (simp add: hit_text_def)
  have ne: "points ?st \<noteq> []" by simp
  have a: "fst (ask ?svc ''why?'' ?st)
             = Inr [(''answer'', ''Paris.''), (''context'', ''B.'' @ newline @ ''D.'' @ newline @ ''A.'')]"
    using hits [symmetric]
    by (simp add: ask_def Let_def query_huggingface_chat_def chat_content_def hit_text_def
        stub_services_def strip_def isspace_def)
  from ask_context_top3 [OF hits ctx ne] s a show ?thesis by simp
qed

text \<open>
  Claim C9. When the chat completion answers with a body from which the content cannot
  be read, the answer is the text \<^verbatim>\<open>Error: <status> - <body>\<close> with the response's own
  status code and body; when the transport raises, that exception leaves \<^verbatim>\<open>ask\<close>. In
  both cases the chat completion was called once.
\<close>

theorem ask_chat_failure_surfaced:
  assumes "hits = search (similarity svc) (embed svc question) 3 (points st)" and "hits \<noteq> []"
    and "ctx = join newline (map hit_text hits)"
    and "st' = st\<lparr>calls := calls st @ [Encode [question], Search (embed svc question) 3,
                                         ChatCompletion (chat_payload svc question ctx)]\<rparr>"
  shows "(http_post svc (chat_payload svc question ctx) = Inr resp \<and> chat_content resp = None \<longrightarrow>
            ask svc question st =
              (Inr [(''answer'', ''Error: '' @ str_int (status_code resp) @ '' - '' @ resp_text resp),
                    (''context'', ctx)], st'))
         \<and> (http_post svc (chat_payload svc question ctx) = Inl e \<longrightarrow>
              ask svc question st = (Inl e, st'))"
  using assms by (simp add: ask_def Let_def query_huggingface_chat_def)

theorem ask_chat_failure_surfaced_witness:
  "search (similarity stub_services) (embed stub_services ''why?'') 3
       [\<lparr>point_id = 7, vector = [1 / 2], payload = [''text'' \<mapsto> ''A. B.'']\<rparr>]
     = [\<lparr>point_id = 7, vector = [1 / 2], payload = [''text'' \<mapsto> ''A. B.'']\<rparr>]
   \<and> http_post stub_services (chat_payload stub_services ''why?'' ''A. B.'')
       = Inr \<lparr>status_code = 503, resp_text = ''Service Unavailable'', resp_json = None\<rparr>
   \<and> chat_content \<lparr>status_code = 503, resp_text = ''Service Unavailable'', resp_json = None\<rparr> = None
   \<and> ask stub_services ''why?''
        \<lparr>points = [\<lparr>point_id = 7, vector = [1 / 2], payload = [''text'' \<mapsto> ''A. B.'']\<rparr>],
         calls = []\<rparr>
       = (Inr [(''answer'', ''Error: 503 - Service Unavailable''), (''context'', ''A. B.'')],
          \<lparr>points = [\<lparr>point_id = 7, vector = [1 / 2], payload = [''text'' \<mapsto> ''A. B.'']\<rparr>],
           calls = [Encode [''why?''], Search (embed stub_services ''why?'') 3,
                    ChatCompletion (chat_payload stub_services ''why?'' ''A. B.'')]\<rparr>)"
proof -
  let ?p = "\<lparr>point_id = 7, vector = [1 / 2], payload = [''text'' \<mapsto> ''A. B.'']\<rparr>"
  let ?st = "\<lparr>points = [?p], calls = []\<rparr>"
  let ?resp = "\<lparr>status_code = 503, resp_text = ''Service Unavailable'', resp_json = None\<rparr>"
  have hits: "[?p] = search (similarity stub_services) (embed stub_services ''why?'') 3 (points ?st)"
    by (simp add: search_def)
  have ne: "[?p] \<noteq> []" by simp
  have ctx: "''A. B.'' = join newline (map hit_text [?p])"
    by (simp add: hit_text_def)
  have post: "http_post stub_services (chat_payload stub_services ''why?'' ''A. B.'') = Inr ?resp"
    by (simp add: stub_services_def)
  have none: "chat_content ?resp = None"
    by (simp add: chat_content_def)
  have err: "''Error: '' @ str_int (status_code ?resp) @ '' - '' @ resp_text ?resp
               = ''Error: 503 - Service Unavailable''"
    by (simp add: str_int_def digit_def)
  from ask_chat_failure_surfaced [OF hits ne ctx refl, of ?resp] post none err hits
  show ?thesis by simp
qed

end
